theory Spec2Isabelle
  imports Complex_Main
begin

section \<open>The rally warehouse: tables and rows\<close>

text \<open>
  The tables of \<^verbatim>\<open>BOOTCAMP_RALLY.RALLY\<close> that \<^verbatim>\<open>start_race\<close> (app.py) reads and
  writes. A table is the list of its rows, in storage order. Identifiers and positions are
  Python integers (\<open>int\<close>); budgets, fees, distances, speeds and times are numbers, taken
  here as exact rationals: the rounding of the floating-point columns is not part of the
  model. Every statement sent to the warehouse is taken to succeed, so the
  \<^verbatim>\<open>try/except\<close> around each budget \<^verbatim>\<open>UPDATE\<close> never fires.
\<close>

record team =
  team_id :: int
  team_name :: string
  budget :: rat

record car =
  car_id :: int
  car_name :: string
  speed :: rat
  pit_stop_interval :: rat
  pit_stop_duration :: rat
  car_team_id :: int

record race_event =
  ev_race_id :: int
  ev_distance :: rat
  ev_started_at :: nat

record race_entry =
  en_race_id :: int
  en_team_id :: int
  en_car_id :: int
  en_time_taken :: rat
  en_fee :: rat

record race_result =
  rs_race_id :: int
  rs_team_id :: int
  rs_car_id :: int
  rs_position :: int
  rs_prize_money :: rat

record warehouse =
  teams :: "team list"
  cars :: "car list"
  race_events :: "race_event list"
  race_entries :: "race_entry list"
  race_results :: "race_result list"

text \<open>A row of the data frame \<^verbatim>\<open>df\<close>: the eight columns of the join of step 2.\<close>

record df_row =
  r_car_id :: int
  r_car_name :: string
  r_speed :: rat
  r_pit_stop_interval :: rat
  r_pit_stop_duration :: rat
  r_team_id :: int
  r_team_name :: string
  r_budget :: rat

datatype race_error = NoRaceEvent | NoTeamsWithEnoughBudget

section \<open>The steps of \<^verbatim>\<open>start_race\<close>\<close>

subsection \<open>Step 1: the race event\<close>

text \<open>
  \<^verbatim>\<open>INSERT INTO RACE_EVENTS (DISTANCE) VALUES (%s)\<close>. The columns \<^verbatim>\<open>RACE_ID\<close> and
  \<^verbatim>\<open>STARTED_AT\<close> are filled by the table's defaults, which are declared in setup.sql and
  not in app.py: the two generated values are parameters here.
\<close>

definition insert_race_event :: "int \<Rightarrow> nat \<Rightarrow> rat \<Rightarrow> warehouse \<Rightarrow> warehouse" where
  "insert_race_event new_id now distance w =
     w\<lparr>race_events := race_events w @
          [\<lparr>ev_race_id = new_id, ev_distance = distance, ev_started_at = now\<rparr>]\<rparr>"

text \<open>
  \<^verbatim>\<open>SELECT RACE_ID FROM RACE_EVENTS ORDER BY STARTED_AT DESC LIMIT 1\<close>: a row with the
  greatest timestamp (among equal timestamps the earliest stored one is taken; SQL leaves
  that choice open), or nothing when the table is empty.
\<close>

fun latest_event :: "race_event list \<Rightarrow> race_event option" where
  "latest_event [] = None"
| "latest_event (e # es) =
     (case latest_event es of
        None \<Rightarrow> Some e
      | Some e' \<Rightarrow> if ev_started_at e < ev_started_at e' then Some e' else Some e)"

subsection \<open>Step 2: cars whose team can afford the fee\<close>

definition join_row :: "car \<Rightarrow> team \<Rightarrow> df_row" where
  "join_row c t =
     \<lparr>r_car_id = car_id c, r_car_name = car_name c, r_speed = speed c,
      r_pit_stop_interval = pit_stop_interval c, r_pit_stop_duration = pit_stop_duration c,
      r_team_id = car_team_id c, r_team_name = team_name t, r_budget = budget t\<rparr>"

text \<open>
  \<^verbatim>\<open>FROM CARS c JOIN TEAMS t ON c.TEAM_ID = t.TEAM_ID WHERE t.BUDGET >= fee\<close>: one row
  for every pair of a car and a team that satisfies both conditions.
\<close>

definition select_cars :: "warehouse \<Rightarrow> rat \<Rightarrow> df_row list" where
  "select_cars w fee =
     concat (map (\<lambda>c. map (join_row c)
                         (filter (\<lambda>t. car_team_id c = team_id t \<and> fee \<le> budget t) (teams w)))
                 (cars w))"

subsection \<open>Step 3: the fee, once per team id\<close>

text \<open>\<^verbatim>\<open>Series.unique()\<close>: the distinct values, in order of first appearance.\<close>

fun unique :: "'a list \<Rightarrow> 'a list" where
  "unique [] = []"
| "unique (x # xs) = x # unique (filter (\<lambda>y. y \<noteq> x) xs)"

text \<open>\<^verbatim>\<open>UPDATE TEAMS SET BUDGET = BUDGET - fee WHERE TEAM_ID = team_id\<close>\<close>

definition deduct_fee :: "rat \<Rightarrow> int \<Rightarrow> team list \<Rightarrow> team list" where
  "deduct_fee fee tid ts =
     map (\<lambda>t. if team_id t = tid then t\<lparr>budget := budget t - fee\<rparr> else t) ts"

text \<open>What the loop of step 3, one such \<^verbatim>\<open>UPDATE\<close> per distinct team id, does to \<^verbatim>\<open>TEAMS\<close>.\<close>

definition deduct_fees :: "rat \<Rightarrow> df_row list \<Rightarrow> team list \<Rightarrow> team list" where
  "deduct_fees fee df ts = fold (deduct_fee fee) (unique (map r_team_id df)) ts"

subsection \<open>Step 4: race entries\<close>

text \<open>
  \<^verbatim>\<open>(distance / SPEED * 3600) + (distance // PIT_STOP_INTERVAL * PIT_STOP_DURATION)\<close>,
  with \<^verbatim>\<open>//\<close> the floor division.
\<close>

definition time_taken :: "rat \<Rightarrow> df_row \<Rightarrow> rat" where
  "time_taken distance r =
     distance / r_speed r * 3600 +
     of_int \<lfloor>distance / r_pit_stop_interval r\<rfloor> * r_pit_stop_duration r"

text \<open>
  \<^verbatim>\<open>df_entries\<close>, one row per row of \<^verbatim>\<open>df\<close>. Only the five columns of
  \<^verbatim>\<open>entries_df\<close> are kept: the later steps read no other column.
\<close>

definition make_entries :: "int \<Rightarrow> rat \<Rightarrow> rat \<Rightarrow> df_row list \<Rightarrow> race_entry list" where
  "make_entries race_id distance fee df =
     map (\<lambda>r. \<lparr>en_race_id = race_id, en_team_id = r_team_id r, en_car_id = r_car_id r,
               en_time_taken = time_taken distance r, en_fee = fee\<rparr>) df"

subsection \<open>Step 5: positions and prizes\<close>

text \<open>
  \<^verbatim>\<open>Series.rank(method='min').astype(int)\<close>: the values are ranked 1, 2, ... in
  ascending order, and a group of equal values gets the lowest rank of the group, which is
  the place of its first member in the sorted column.
\<close>

definition rank_min :: "rat list \<Rightarrow> int list" where
  "rank_min xs = map (\<lambda>x. int (length (takeWhile (\<lambda>y. y \<noteq> x) (sort xs))) + 1) xs"

definition total_pot :: "race_entry list \<Rightarrow> rat" where
  "total_pot es = sum_list (map en_fee es)"

text \<open>\<^verbatim>\<open>prize_split = {1: 0.5, 2: 0.3, 3: 0.2}\<close> and \<^verbatim>\<open>prize_split.get(pos, 0)\<close>\<close>

definition prize_split :: "int \<rightharpoonup> rat" where
  "prize_split = [1 \<mapsto> 1 / 2, 2 \<mapsto> 3 / 10, 3 \<mapsto> 1 / 5]"

definition prize_split_get :: "int \<Rightarrow> rat" where
  "prize_split_get pos = (case prize_split pos of None \<Rightarrow> 0 | Some s \<Rightarrow> s)"

definition make_results :: "race_entry list \<Rightarrow> race_result list" where
  "make_results es =
     map (\<lambda>(e, pos). \<lparr>rs_race_id = en_race_id e, rs_team_id = en_team_id e,
                      rs_car_id = en_car_id e, rs_position = pos,
                      rs_prize_money = total_pot es * prize_split_get pos\<rparr>)
         (zip es (rank_min (map en_time_taken es)))"

subsection \<open>Step 6: prizes go to the budgets\<close>

text \<open>\<^verbatim>\<open>UPDATE TEAMS SET BUDGET = BUDGET + prize WHERE TEAM_ID = team_id\<close>\<close>

definition add_prize :: "rat \<Rightarrow> int \<Rightarrow> team list \<Rightarrow> team list" where
  "add_prize prize tid ts =
     map (\<lambda>t. if team_id t = tid then t\<lparr>budget := budget t + prize\<rparr> else t) ts"

text \<open>What the loop of step 6, one such \<^verbatim>\<open>UPDATE\<close> per result with a prize, does to \<^verbatim>\<open>TEAMS\<close>.\<close>

definition credit_prizes :: "race_result list \<Rightarrow> team list \<Rightarrow> team list" where
  "credit_prizes rs ts =
     fold (\<lambda>r ts'. if 0 < rs_prize_money r then add_prize (rs_prize_money r) (rs_team_id r) ts'
                    else ts') rs ts"

subsection \<open>The connection\<close>

text \<open>
  A connection of the Snowflake connector: the tables as the statements of the session see
  them (\<open>working\<close>), the tables as committed (\<open>committed\<close>), which is what is left when
  the connection is closed, and the session's autocommit mode.
\<close>

record connection =
  committed :: warehouse
  working :: warehouse
  autocommit :: bool

text \<open>
  \<^verbatim>\<open>get_snowflake_connection()\<close> calls \<^verbatim>\<open>snowflake.connector.connect\<close> with user,
  password, account, warehouse, database and schema only. No \<^verbatim>\<open>autocommit\<close> argument
  is given and no transaction is begun anywhere in app.py, so the session runs in the
  connector's default mode, autocommit on.
\<close>

definition get_snowflake_connection :: "warehouse \<Rightarrow> connection" where
  "get_snowflake_connection w = \<lparr>committed = w, working = w, autocommit = True\<rparr>"

text \<open>
  A statement that writes (\<^verbatim>\<open>cursor.execute\<close> of an \<^verbatim>\<open>INSERT\<close> or \<^verbatim>\<open>UPDATE\<close>, and
  the load that \<^verbatim>\<open>write_pandas\<close> runs on the connection): under autocommit it is
  committed as soon as it has succeeded.
\<close>

definition execute :: "(warehouse \<Rightarrow> warehouse) \<Rightarrow> connection \<Rightarrow> connection" where
  "execute stmt conn =
     (let w' = stmt (working conn)
      in conn\<lparr>working := w', committed := (if autocommit conn then w' else committed conn)\<rparr>)"

text \<open>\<^verbatim>\<open>conn.commit()\<close> and \<^verbatim>\<open>conn.rollback()\<close>\<close>

definition commit :: "connection \<Rightarrow> connection" where
  "commit conn = conn\<lparr>committed := working conn\<rparr>"

definition rollback :: "connection \<Rightarrow> connection" where
  "rollback conn = conn\<lparr>working := committed conn\<rparr>"

text \<open>The three kinds of writing statement of \<^verbatim>\<open>start_race\<close> after step 1.\<close>

definition update_teams :: "(team list \<Rightarrow> team list) \<Rightarrow> warehouse \<Rightarrow> warehouse" where
  "update_teams f w = w\<lparr>teams := f (teams w)\<rparr>"

definition append_entries :: "race_entry list \<Rightarrow> warehouse \<Rightarrow> warehouse" where
  "append_entries es w = w\<lparr>race_entries := race_entries w @ es\<rparr>"

definition append_results :: "race_result list \<Rightarrow> warehouse \<Rightarrow> warehouse" where
  "append_results rs w = w\<lparr>race_results := race_results w @ rs\<rparr>"

subsection \<open>The transaction\<close>

text \<open>
  The body of the \<^verbatim>\<open>try\<close> block: the race id it returns or the exception it raises,
  and the connection as it is at that moment. The loops of steps 3 and 6 send one
  \<^verbatim>\<open>UPDATE\<close> per team id and per result with a prize.
\<close>

definition start_race_body ::
  "int \<Rightarrow> nat \<Rightarrow> connection \<Rightarrow> rat \<Rightarrow> rat \<Rightarrow> (race_error + int) \<times> connection" where
  "start_race_body new_id now conn distance fee =
     (let c1 = execute (insert_race_event new_id now distance) conn in
      case latest_event (race_events (working c1)) of
        None \<Rightarrow> (Inl NoRaceEvent, c1)
      | Some ev \<Rightarrow>
          let race_id = ev_race_id ev;
              df = select_cars (working c1) fee
          in if df = [] then (Inl NoTeamsWithEnoughBudget, c1)
             else
               let c2 = fold (\<lambda>tid. execute (update_teams (deduct_fee fee tid)))
                          (unique (map r_team_id df)) c1;
                   df_entries = make_entries race_id distance fee df;
                   c3 = execute (append_entries df_entries) c2;
                   df_results = make_results df_entries;
                   c4 = execute (append_results df_results) c3;
                   c5 = fold (\<lambda>r c. if 0 < rs_prize_money r
                                      then execute (update_teams
                                             (add_prize (rs_prize_money r) (rs_team_id r))) c
                                      else c) df_results c4
               in (Inr race_id, c5))"

text \<open>
  \<^verbatim>\<open>start_race\<close> on the warehouse \<open>w\<close>: it opens a connection, runs the body, and
  on an exception calls \<^verbatim>\<open>conn.rollback()\<close> and returns \<^verbatim>\<open>None\<close>, otherwise calls
  \<^verbatim>\<open>conn.commit()\<close> and returns the race id; \<^verbatim>\<open>conn.close()\<close> leaves the committed
  tables.
\<close>

definition start_race :: "int \<Rightarrow> nat \<Rightarrow> warehouse \<Rightarrow> rat \<Rightarrow> rat \<Rightarrow> int option \<times> warehouse" where
  "start_race new_id now w distance fee =
     (case start_race_body new_id now (get_snowflake_connection w) distance fee of
        (Inl e, conn) \<Rightarrow> (None, committed (rollback conn))
      | (Inr race_id, conn) \<Rightarrow> (Some race_id, committed (commit conn)))"

subsection \<open>What one invocation added and paid\<close>

text \<open>The rows that an invocation appended to \<^verbatim>\<open>RACE_ENTRIES\<close> and \<^verbatim>\<open>RACE_RESULTS\<close>.\<close>

definition new_entries :: "warehouse \<Rightarrow> warehouse \<Rightarrow> race_entry list" where
  "new_entries w w' = drop (length (race_entries w)) (race_entries w')"

definition new_results :: "warehouse \<Rightarrow> warehouse \<Rightarrow> race_result list" where
  "new_results w w' = drop (length (race_results w)) (race_results w')"

definition total_prize_money :: "race_result list \<Rightarrow> rat" where
  "total_prize_money rs = sum_list (map rs_prize_money rs)"

definition count_position :: "int \<Rightarrow> race_result list \<Rightarrow> nat" where
  "count_position p rs = length (filter (\<lambda>r. rs_position r = p) rs)"

text \<open>The prize money that step 6 adds to the budget of the team with a given id.\<close>

definition credited :: "race_result list \<Rightarrow> int \<Rightarrow> rat" where
  "credited rs tid =
     sum_list (map rs_prize_money
                 (filter (\<lambda>r. rs_team_id r = tid \<and> 0 < rs_prize_money r) rs))"

text \<open>A team id is never stored twice (\<^verbatim>\<open>TEAM_ID\<close> is the key of \<^verbatim>\<open>TEAMS\<close>).\<close>

definition team_ids_distinct :: "warehouse \<Rightarrow> bool" where
  "team_ids_distinct w = distinct (map team_id (teams w))"

section \<open>Example warehouses\<close>

text \<open>
  Team A (budget 500) with car A1, team B (budget 1000) with cars B1 and B2, team C
  (budget 100) with car C1, and team D (budget 5000) with no car. A1 and B1 are the cars
  of the example of the specification.
\<close>

definition ex_teams :: "team list" where
  "ex_teams =
     [\<lparr>team_id = 1, team_name = ''A'', budget = 500\<rparr>,
      \<lparr>team_id = 2, team_name = ''B'', budget = 1000\<rparr>,
      \<lparr>team_id = 3, team_name = ''C'', budget = 100\<rparr>,
      \<lparr>team_id = 4, team_name = ''D'', budget = 5000\<rparr>]"

definition ex_cars :: "car list" where
  "ex_cars =
     [\<lparr>car_id = 11, car_name = ''A1'', speed = 200, pit_stop_interval = 300,
       pit_stop_duration = 30, car_team_id = 1\<rparr>,
      \<lparr>car_id = 21, car_name = ''B1'', speed = 250, pit_stop_interval = 500,
       pit_stop_duration = 20, car_team_id = 2\<rparr>,
      \<lparr>car_id = 22, car_name = ''B2'', speed = 100, pit_stop_interval = 400,
       pit_stop_duration = 10, car_team_id = 2\<rparr>,
      \<lparr>car_id = 31, car_name = ''C1'', speed = 300, pit_stop_interval = 600,
       pit_stop_duration = 5, car_team_id = 3\<rparr>]"

definition ex_w :: warehouse where
  "ex_w = \<lparr>teams = ex_teams, cars = ex_cars, race_events = [], race_entries = [],
           race_results = []\<rparr>"

text \<open>The warehouse after a race over 1000 km with a fee of 400, race id 7.\<close>

definition ex_w' :: warehouse where
  "ex_w' =
     \<lparr>teams =
        [\<lparr>team_id = 1, team_name = ''A'', budget = 460\<rparr>,
         \<lparr>team_id = 2, team_name = ''B'', budget = 1440\<rparr>,
         \<lparr>team_id = 3, team_name = ''C'', budget = 100\<rparr>,
         \<lparr>team_id = 4, team_name = ''D'', budget = 5000\<rparr>],
      cars = ex_cars,
      race_events = [\<lparr>ev_race_id = 7, ev_distance = 1000, ev_started_at = 0\<rparr>],
      race_entries =
        [\<lparr>en_race_id = 7, en_team_id = 1, en_car_id = 11, en_time_taken = 18090, en_fee = 400\<rparr>,
         \<lparr>en_race_id = 7, en_team_id = 2, en_car_id = 21, en_time_taken = 14440, en_fee = 400\<rparr>,
         \<lparr>en_race_id = 7, en_team_id = 2, en_car_id = 22, en_time_taken = 36020, en_fee = 400\<rparr>],
      race_results =
        [\<lparr>rs_race_id = 7, rs_team_id = 1, rs_car_id = 11, rs_position = 2, rs_prize_money = 360\<rparr>,
         \<lparr>rs_race_id = 7, rs_team_id = 2, rs_car_id = 21, rs_position = 1, rs_prize_money = 600\<rparr>,
         \<lparr>rs_race_id = 7, rs_team_id = 2, rs_car_id = 22, rs_position = 3, rs_prize_money = 240\<rparr>]\<rparr>"

text \<open>Three teams with one car each; the cars of Y and Z need the same time.\<close>

definition tie_w :: warehouse where
  "tie_w =
     \<lparr>teams =
        [\<lparr>team_id = 1, team_name = ''X'', budget = 900\<rparr>,
         \<lparr>team_id = 2, team_name = ''Y'', budget = 1000\<rparr>,
         \<lparr>team_id = 3, team_name = ''Z'', budget = 1000\<rparr>],
      cars =
        [\<lparr>car_id = 11, car_name = ''X1'', speed = 250, pit_stop_interval = 500,
          pit_stop_duration = 20, car_team_id = 1\<rparr>,
         \<lparr>car_id = 21, car_name = ''Y1'', speed = 200, pit_stop_interval = 300,
          pit_stop_duration = 30, car_team_id = 2\<rparr>,
         \<lparr>car_id = 31, car_name = ''Z1'', speed = 200, pit_stop_interval = 300,
          pit_stop_duration = 30, car_team_id = 3\<rparr>],
      race_events = [], race_entries = [], race_results = []\<rparr>"

definition tie_w' :: warehouse where
  "tie_w' =
     \<lparr>teams =
        [\<lparr>team_id = 1, team_name = ''X'', budget = 1100\<rparr>,
         \<lparr>team_id = 2, team_name = ''Y'', budget = 960\<rparr>,
         \<lparr>team_id = 3, team_name = ''Z'', budget = 960\<rparr>],
      cars = cars tie_w,
      race_events = [\<lparr>ev_race_id = 7, ev_distance = 1000, ev_started_at = 0\<rparr>],
      race_entries =
        [\<lparr>en_race_id = 7, en_team_id = 1, en_car_id = 11, en_time_taken = 14440, en_fee = 400\<rparr>,
         \<lparr>en_race_id = 7, en_team_id = 2, en_car_id = 21, en_time_taken = 18090, en_fee = 400\<rparr>,
         \<lparr>en_race_id = 7, en_team_id = 3, en_car_id = 31, en_time_taken = 18090, en_fee = 400\<rparr>],
      race_results =
        [\<lparr>rs_race_id = 7, rs_team_id = 1, rs_car_id = 11, rs_position = 1, rs_prize_money = 600\<rparr>,
         \<lparr>rs_race_id = 7, rs_team_id = 2, rs_car_id = 21, rs_position = 2, rs_prize_money = 360\<rparr>,
         \<lparr>rs_race_id = 7, rs_team_id = 3, rs_car_id = 31, rs_position = 2, rs_prize_money = 360\<rparr>]\<rparr>"

text \<open>Teams A and C with their cars: with a fee of 400 only A1 can start.\<close>

definition solo_w :: warehouse where
  "solo_w =
     \<lparr>teams =
        [\<lparr>team_id = 1, team_name = ''A'', budget = 500\<rparr>,
         \<lparr>team_id = 3, team_name = ''C'', budget = 100\<rparr>],
      cars =
        [\<lparr>car_id = 11, car_name = ''A1'', speed = 200, pit_stop_interval = 300,
          pit_stop_duration = 30, car_team_id = 1\<rparr>,
         \<lparr>car_id = 31, car_name = ''C1'', speed = 300, pit_stop_interval = 600,
          pit_stop_duration = 5, car_team_id = 3\<rparr>],
      race_events = [], race_entries = [], race_results = []\<rparr>"

text \<open>The same three teams after a race with a fee of 950, race id 8: X cannot pay.\<close>

definition tie1_w' :: warehouse where
  "tie1_w' =
     \<lparr>teams = teams tie_w,
      cars = cars tie_w,
      race_events = [\<lparr>ev_race_id = 8, ev_distance = 1000, ev_started_at = 1\<rparr>],
      race_entries =
        [\<lparr>en_race_id = 8, en_team_id = 2, en_car_id = 21, en_time_taken = 18090, en_fee = 950\<rparr>,
         \<lparr>en_race_id = 8, en_team_id = 3, en_car_id = 31, en_time_taken = 18090, en_fee = 950\<rparr>],
      race_results =
        [\<lparr>rs_race_id = 8, rs_team_id = 2, rs_car_id = 21, rs_position = 1, rs_prize_money = 950\<rparr>,
         \<lparr>rs_race_id = 8, rs_team_id = 3, rs_car_id = 31, rs_position = 1, rs_prize_money = 950\<rparr>]\<rparr>"

definition solo_w' :: warehouse where
  "solo_w' =
     \<lparr>teams =
        [\<lparr>team_id = 1, team_name = ''A'', budget = 300\<rparr>,
         \<lparr>team_id = 3, team_name = ''C'', budget = 100\<rparr>],
      cars = cars solo_w,
      race_events = [\<lparr>ev_race_id = 7, ev_distance = 1000, ev_started_at = 0\<rparr>],
      race_entries =
        [\<lparr>en_race_id = 7, en_team_id = 1, en_car_id = 11, en_time_taken = 18090, en_fee = 400\<rparr>],
      race_results =
        [\<lparr>rs_race_id = 7, rs_team_id = 1, rs_car_id = 11, rs_position = 1, rs_prize_money = 200\<rparr>]\<rparr>"

section \<open>The shape of a run\<close>

lemma latest_event_snoc: "\<exists>ev. latest_event (es @ [e]) = Some ev"
  by (induction es) (auto split: option.splits)

lemma select_cars_race_events [simp]:
  "select_cars (w\<lparr>race_events := es\<rparr>) fee = select_cars w fee"
  by (simp add: select_cars_def)

lemma working_execute [simp]: "working (execute stmt conn) = stmt (working conn)"
  by (simp add: execute_def Let_def)

lemma autocommit_execute [simp]: "autocommit (execute stmt conn) = autocommit conn"
  by (simp add: execute_def Let_def)

lemma committed_execute [simp]:
  "autocommit conn \<Longrightarrow> committed (execute stmt conn) = stmt (working conn)"
  by (simp add: execute_def Let_def)

lemma get_snowflake_connection_simps [simp]:
  "working (get_snowflake_connection w) = w"
  "committed (get_snowflake_connection w) = w"
  "autocommit (get_snowflake_connection w)"
  by (simp_all add: get_snowflake_connection_def)

lemma fold_execute:
  "working (fold (\<lambda>x c. if P x then execute (F x) c else c) xs conn) =
     fold (\<lambda>x w. if P x then F x w else w) xs (working conn) \<and>
   autocommit (fold (\<lambda>x c. if P x then execute (F x) c else c) xs conn) = autocommit conn \<and>
   (autocommit conn \<longrightarrow> committed conn = working conn \<longrightarrow>
    committed (fold (\<lambda>x c. if P x then execute (F x) c else c) xs conn) =
      fold (\<lambda>x w. if P x then F x w else w) xs (working conn))"
  by (induction xs arbitrary: conn) simp_all

lemma fold_execute_all:
  "working (fold (\<lambda>x. execute (F x)) xs conn) = fold F xs (working conn) \<and>
   autocommit (fold (\<lambda>x. execute (F x)) xs conn) = autocommit conn \<and>
   (autocommit conn \<longrightarrow> committed conn = working conn \<longrightarrow>
    committed (fold (\<lambda>x. execute (F x)) xs conn) = fold F xs (working conn))"
  using fold_execute [of "\<lambda>x. True" F xs conn] by simp

lemma fold_deduct_statements:
  "fold (\<lambda>tid. update_teams (deduct_fee fee tid)) ids w =
     update_teams (fold (deduct_fee fee) ids) w"
  by (induction ids arbitrary: w) (simp_all add: update_teams_def)

lemma fold_prize_statements:
  "fold (\<lambda>r w. if 0 < rs_prize_money r
                then update_teams (add_prize (rs_prize_money r) (rs_team_id r)) w else w) rs w =
     update_teams (credit_prizes rs) w"
  unfolding credit_prizes_def
  by (induction rs arbitrary: w) (simp_all add: update_teams_def)

lemma start_race_cases:
  "start_race n now w d fee =
     (if select_cars w fee = [] then (None, insert_race_event n now d w)
      else case latest_event (race_events w @
                    [\<lparr>ev_race_id = n, ev_distance = d, ev_started_at = now\<rparr>]) of
             None \<Rightarrow> (None, insert_race_event n now d w)
           | Some ev \<Rightarrow>
               (Some (ev_race_id ev),
                    \<lparr>teams = credit_prizes
                               (make_results
                                  (make_entries (ev_race_id ev) d fee (select_cars w fee)))
                               (deduct_fees fee (select_cars w fee) (teams w)),
                     cars = cars w,
                     race_events = race_events w @
                        [\<lparr>ev_race_id = n, ev_distance = d, ev_started_at = now\<rparr>],
                     race_entries = race_entries w @
                        make_entries (ev_race_id ev) d fee (select_cars w fee),
                     race_results = race_results w @
                        make_results (make_entries (ev_race_id ev) d fee (select_cars w fee))\<rparr>))"
proof -
  let ?c = "get_snowflake_connection w"
  let ?c1 = "execute (insert_race_event n now d) ?c"
  have c1: "working ?c1 = insert_race_event n now d w" "autocommit ?c1"
    "committed ?c1 = working ?c1"
    by simp_all
  have sel: "select_cars (insert_race_event n now d w) fee = select_cars w fee"
    by (simp add: insert_race_event_def)
  have ev: "race_events (insert_race_event n now d w) =
      race_events w @ [\<lparr>ev_race_id = n, ev_distance = d, ev_started_at = now\<rparr>]"
    by (simp add: insert_race_event_def)
  have fail: "committed (rollback ?c1) = insert_race_event n now d w"
    using c1 by (simp add: rollback_def)
  show ?thesis
  proof (cases "select_cars w fee = []")
    case True
    then show ?thesis
      using latest_event_snoc
          [of "race_events w" "\<lparr>ev_race_id = n, ev_distance = d, ev_started_at = now\<rparr>"]
      by (auto simp: start_race_def start_race_body_def Let_def sel ev rollback_def)
  next
    case False
    obtain e where e: "latest_event (race_events w @
        [\<lparr>ev_race_id = n, ev_distance = d, ev_started_at = now\<rparr>]) = Some e"
      using latest_event_snoc by blast
    let ?df = "select_cars w fee"
    let ?es = "make_entries (ev_race_id e) d fee ?df"
    let ?c2 = "fold (\<lambda>tid. execute (update_teams (deduct_fee fee tid)))
                 (unique (map r_team_id ?df)) ?c1"
    let ?c4 = "execute (append_results (make_results ?es)) (execute (append_entries ?es) ?c2)"
    let ?c5 = "fold (\<lambda>r c. if 0 < rs_prize_money r
                            then execute (update_teams
                                   (add_prize (rs_prize_money r) (rs_team_id r))) c
                            else c) (make_results ?es) ?c4"
    have w2: "working ?c2 =
        update_teams (deduct_fees fee ?df) (insert_race_event n now d w)"
      using fold_execute_all
        [of "\<lambda>tid. update_teams (deduct_fee fee tid)" "unique (map r_team_id ?df)" ?c1]
      by (simp add: fold_deduct_statements deduct_fees_def update_teams_def)
    have w5: "working ?c5 =
        update_teams (credit_prizes (make_results ?es))
          (append_results (make_results ?es) (append_entries ?es
             (update_teams (deduct_fees fee ?df) (insert_race_event n now d w))))"
      using fold_execute
        [of "\<lambda>r. 0 < rs_prize_money r"
            "\<lambda>r. update_teams (add_prize (rs_prize_money r) (rs_team_id r))"
            "make_results ?es" ?c4]
      by (simp add: w2 fold_prize_statements)
    have "start_race n now w d fee = (Some (ev_race_id e), working ?c5)"
      using False e
      by (simp add: start_race_def start_race_body_def Let_def sel ev commit_def)
    also have "working ?c5 =
        \<lparr>teams = credit_prizes (make_results ?es) (deduct_fees fee ?df (teams w)),
         cars = cars w,
         race_events = race_events w @
            [\<lparr>ev_race_id = n, ev_distance = d, ev_started_at = now\<rparr>],
         race_entries = race_entries w @ ?es,
         race_results = race_results w @ make_results ?es\<rparr>"
      unfolding w5
      by (simp add: update_teams_def append_results_def append_entries_def
                    insert_race_event_def)
    finally show ?thesis using False e by simp
  qed
qed

lemma start_race_SomeD:
  assumes "start_race n now w d fee = (Some rid, w')"
  shows "select_cars w fee \<noteq> []"
    and "teams w' = credit_prizes (make_results (make_entries rid d fee (select_cars w fee)))
                      (deduct_fees fee (select_cars w fee) (teams w))"
    and "cars w' = cars w"
    and "new_entries w w' = make_entries rid d fee (select_cars w fee)"
    and "new_results w w' = make_results (make_entries rid d fee (select_cars w fee))"
  using assms
  by (auto simp: start_race_cases new_entries_def new_results_def
           split: if_splits option.splits)

lemma start_race_None:
  "select_cars w fee = [] \<Longrightarrow>
   start_race n now w d fee = (None, insert_race_event n now d w)"
  by (simp add: start_race_cases)

lemma start_race_succeeds:
  "select_cars w fee \<noteq> [] \<Longrightarrow> \<exists>rid w'. start_race n now w d fee = (Some rid, w')"
  using latest_event_snoc
          [of "race_events w" "\<lparr>ev_race_id = n, ev_distance = d, ev_started_at = now\<rparr>"]
  by (auto simp: start_race_cases)

subsection \<open>The two budget loops\<close>

lemma set_unique [simp]: "set (unique xs) = set xs"
  by (induction xs rule: unique.induct) auto

lemma distinct_unique [simp]: "distinct (unique xs)"
  by (induction xs rule: unique.induct) auto

lemma fold_deduct_fee:
  "distinct ids \<Longrightarrow>
   fold (deduct_fee fee) ids ts =
   map (\<lambda>t. if team_id t \<in> set ids then t\<lparr>budget := budget t - fee\<rparr> else t) ts"
proof (induction ids arbitrary: ts)
  case Nil
  then show ?case by simp
next
  case (Cons i ids)
  then show ?case by (auto simp: deduct_fee_def)
qed

lemma deduct_fees_eq:
  "deduct_fees fee df ts =
   map (\<lambda>t. if team_id t \<in> r_team_id ` set df then t\<lparr>budget := budget t - fee\<rparr> else t) ts"
  by (simp add: deduct_fees_def fold_deduct_fee)

lemma credit_prizes_eq:
  "credit_prizes rs ts = map (\<lambda>t. t\<lparr>budget := budget t + credited rs (team_id t)\<rparr>) ts"
proof (induction rs arbitrary: ts)
  case Nil
  then show ?case by (simp add: credit_prizes_def credited_def)
next
  case (Cons r rs)
  have step: "credit_prizes (r # rs) ts =
     credit_prizes rs
       (if 0 < rs_prize_money r then add_prize (rs_prize_money r) (rs_team_id r) ts else ts)"
    by (simp add: credit_prizes_def)
  show ?case
    unfolding step Cons.IH
    by (auto simp: add_prize_def credited_def)
qed

subsection \<open>Ranking, prizes and the pot\<close>

lemma takeWhile_neq_sorted:
  "sorted ys \<Longrightarrow> x \<in> set ys \<Longrightarrow> takeWhile (\<lambda>y. y \<noteq> x) ys = filter (\<lambda>y. y < x) (ys :: rat list)"
proof (induction ys)
  case Nil
  then show ?case by simp
next
  case (Cons y ys)
  show ?case
  proof (cases "y = x")
    case True
    with Cons.prems have "\<forall>z\<in>set ys. \<not> z < x" by auto
    then have "filter (\<lambda>y. y < x) ys = []" by (simp add: filter_empty_conv)
    with True show ?thesis by simp
  next
    case False
    with Cons.prems have "x \<in> set ys" "y < x" "sorted ys" by auto
    with Cons.IH False show ?thesis by simp
  qed
qed

lemma rank_min_nth:
  assumes "i < length xs"
  shows "rank_min xs ! i = int (length (filter (\<lambda>y. y < xs ! i) xs)) + 1"
proof -
  have "takeWhile (\<lambda>y. y \<noteq> xs ! i) (sort xs) = filter (\<lambda>y. y < xs ! i) (sort xs)"
    using assms by (intro takeWhile_neq_sorted) auto
  also have "\<dots> = sort (filter (\<lambda>y. y < xs ! i) xs)"
    by (rule filter_sort)
  finally show ?thesis using assms by (simp add: rank_min_def)
qed

lemma length_rank_min [simp]: "length (rank_min xs) = length xs"
  by (simp add: rank_min_def)

lemma length_make_results [simp]: "length (make_results es) = length es"
  by (simp add: make_results_def)

lemma length_make_entries [simp]: "length (make_entries rid d fee df) = length df"
  by (simp add: make_entries_def)

lemma make_results_nth:
  "i < length es \<Longrightarrow>
   make_results es ! i =
     \<lparr>rs_race_id = en_race_id (es ! i), rs_team_id = en_team_id (es ! i),
      rs_car_id = en_car_id (es ! i),
      rs_position = int (length (filter (\<lambda>e. en_time_taken e < en_time_taken (es ! i)) es)) + 1,
      rs_prize_money = total_pot es *
        prize_split_get (int (length (filter (\<lambda>e. en_time_taken e < en_time_taken (es ! i)) es)) + 1)\<rparr>"
  by (simp add: make_results_def rank_min_nth filter_map comp_def)

lemma prize_split_get_cases:
  "prize_split_get p = (if p = 1 then 1 / 2 else if p = 2 then 3 / 10 else if p = 3 then 1 / 5 else 0)"
  by (simp add: prize_split_get_def prize_split_def)

lemma total_pot_make_entries: "total_pot (make_entries rid d fee df) = fee * of_nat (length df)"
  by (induction df) (simp_all add: total_pot_def make_entries_def algebra_simps)

subsection \<open>The join and the entries\<close>

lemma set_select_cars:
  "set (select_cars w fee) =
     {join_row c t | c t. c \<in> set (cars w) \<and> t \<in> set (teams w) \<and>
                          car_team_id c = team_id t \<and> fee \<le> budget t}"
  by (auto simp: select_cars_def)

lemma team_by_id:
  "team_ids_distinct w \<Longrightarrow> t \<in> set (teams w) \<Longrightarrow> t' \<in> set (teams w) \<Longrightarrow>
   team_id t' = team_id t \<Longrightarrow> t' = t"
  unfolding team_ids_distinct_def
  by (meson distinct_map inj_onD)

lemma car_by_id:
  "distinct (map car_id (cars w)) \<Longrightarrow> c \<in> set (cars w) \<Longrightarrow> c' \<in> set (cars w) \<Longrightarrow>
   car_id c' = car_id c \<Longrightarrow> c' = c"
  by (meson distinct_map inj_onD)

lemma set_make_entries:
  "set (make_entries rid d fee df) =
     (\<lambda>r. \<lparr>en_race_id = rid, en_team_id = r_team_id r, en_car_id = r_car_id r,
            en_time_taken = time_taken d r, en_fee = fee\<rparr>) ` set df"
  by (simp add: make_entries_def)

lemma join_row_simps:
  "r_team_id (join_row c t) = car_team_id c" "r_car_id (join_row c t) = car_id c"
  by (simp_all add: join_row_def)

subsection \<open>The budgets after a run\<close>

lemma set_make_results_team:
  "r \<in> set (make_results es) \<Longrightarrow> rs_team_id r \<in> en_team_id ` set es"
  by (auto simp: make_results_def dest!: set_zip_leftD)

lemma en_team_id_make_entries:
  "en_team_id ` set (make_entries rid d fee df) = r_team_id ` set df"
  by (auto simp: make_entries_def image_iff)

lemma credited_none:
  assumes "tid \<notin> r_team_id ` set df"
  shows "credited (make_results (make_entries rid d fee df)) tid = 0"
proof -
  have "filter (\<lambda>r. rs_team_id r = tid \<and> 0 < rs_prize_money r)
          (make_results (make_entries rid d fee df)) = []"
    using assms set_make_results_team [of _ "make_entries rid d fee df"]
    unfolding en_team_id_make_entries filter_empty_conv by blast
  then show ?thesis by (simp add: credited_def)
qed

lemma teams_after_run:
  assumes "start_race n now w d fee = (Some rid, w')"
  shows "teams w' =
     map (\<lambda>t. t\<lparr>budget := budget t - (if team_id t \<in> r_team_id ` set (select_cars w fee) then fee else 0)
                                  + credited (new_results w w') (team_id t)\<rparr>) (teams w)"
  unfolding start_race_SomeD(2) [OF assms] start_race_SomeD(5) [OF assms]
    credit_prizes_eq deduct_fees_eq
  by simp

lemma no_row_of_team:
  assumes "team_ids_distinct w" and "t \<in> set (teams w)"
    and "budget t < fee \<or> (\<forall>c\<in>set (cars w). car_team_id c \<noteq> team_id t)"
  shows "team_id t \<notin> r_team_id ` set (select_cars w fee)"
proof
  assume "team_id t \<in> r_team_id ` set (select_cars w fee)"
  then obtain c t' where c: "c \<in> set (cars w)" and t': "t' \<in> set (teams w)"
    and eq: "car_team_id c = team_id t'" and fee: "fee \<le> budget t'"
    and id: "team_id t = r_team_id (join_row c t')"
    unfolding set_select_cars by auto
  from id eq have "team_id t' = team_id t" by (simp add: join_row_simps)
  with assms(1,2) t' have "t' = t" by (rule team_by_id)
  with c eq fee assms(3) show False by auto
qed

lemma rank_min_single [simp]: "rank_min [x] = [1]"
  by (simp add: rank_min_def)

subsection \<open>Counting rows and prizes\<close>

lemma length_filter_team:
  "distinct (map team_id ts) \<Longrightarrow>
   length (filter (\<lambda>t. k = team_id t \<and> fee \<le> budget t) ts) =
     (if \<exists>t\<in>set ts. team_id t = k \<and> fee \<le> budget t then 1 else 0)"
  by (induction ts) (auto simp: image_iff)

lemma length_select_cars:
  assumes "team_ids_distinct w"
  shows "length (select_cars w fee) =
         length (filter (\<lambda>c. \<exists>t\<in>set (teams w). team_id t = car_team_id c \<and> fee \<le> budget t)
                   (cars w))"
proof -
  have "length (concat (map (\<lambda>c. map (join_row c)
            (filter (\<lambda>t. car_team_id c = team_id t \<and> fee \<le> budget t) (teams w))) cs)) =
        length (filter (\<lambda>c. \<exists>t\<in>set (teams w). team_id t = car_team_id c \<and> fee \<le> budget t) cs)"
    for cs
    using assms [unfolded team_ids_distinct_def]
    by (induction cs) (simp_all add: length_filter_team)
  then show ?thesis by (simp add: select_cars_def)
qed

lemma length_team_rows:
  assumes "team_ids_distinct w" and "t \<in> set (teams w)"
  shows "length (filter (\<lambda>r. r_team_id r = team_id t) (select_cars w fee)) =
         length (filter (\<lambda>c. car_team_id c = team_id t \<and> fee \<le> budget t) (cars w))"
proof -
  have one: "(\<exists>t'\<in>set (teams w). team_id t' = team_id t \<and> fee \<le> budget t') \<longleftrightarrow> fee \<le> budget t"
    using team_by_id [OF assms] assms(2) by blast
  have "length (filter (\<lambda>r. r_team_id r = team_id t)
          (concat (map (\<lambda>c. map (join_row c)
            (filter (\<lambda>t. car_team_id c = team_id t \<and> fee \<le> budget t) (teams w))) cs))) =
        length (filter (\<lambda>c. car_team_id c = team_id t \<and> fee \<le> budget t) cs)"
    for cs
  proof (induction cs)
    case Nil
    then show ?case by simp
  next
    case (Cons c cs)
    have "filter (\<lambda>r. r_team_id r = team_id t) (map (join_row c) ts) =
          (if car_team_id c = team_id t then map (join_row c) ts else [])" for ts
      by (induction ts) (simp_all add: join_row_simps)
    moreover have "length (filter (\<lambda>t'. team_id t = team_id t' \<and> fee \<le> budget t') (teams w)) =
          (if fee \<le> budget t then 1 else 0)"
      unfolding length_filter_team [OF assms(1) [unfolded team_ids_distinct_def]] one ..
    moreover from this have "\<not> fee \<le> budget t \<Longrightarrow>
        filter (\<lambda>t'. team_id t = team_id t' \<and> fee \<le> budget t') (teams w) = []"
      by simp
    ultimately show ?case using Cons by simp
  qed
  then show ?thesis by (simp add: select_cars_def)
qed

lemma filter_make_entries:
  "filter (\<lambda>e. en_team_id e = tid) (make_entries rid d fee df) =
   make_entries rid d fee (filter (\<lambda>r. r_team_id r = tid) df)"
  by (induction df) (simp_all add: make_entries_def)

lemma has_row_iff:
  assumes "team_ids_distinct w" and "t \<in> set (teams w)"
  shows "team_id t \<in> r_team_id ` set (select_cars w fee) \<longleftrightarrow>
         fee \<le> budget t \<and> (\<exists>c\<in>set (cars w). car_team_id c = team_id t)"
proof
  assume "team_id t \<in> r_team_id ` set (select_cars w fee)"
  then show "fee \<le> budget t \<and> (\<exists>c\<in>set (cars w). car_team_id c = team_id t)"
    using no_row_of_team [OF assms, of fee] by (meson not_le)
next
  assume "fee \<le> budget t \<and> (\<exists>c\<in>set (cars w). car_team_id c = team_id t)"
  then obtain c where "c \<in> set (cars w)" "car_team_id c = team_id t" "fee \<le> budget t" by blast
  with assms(2) have "join_row c t \<in> set (select_cars w fee)"
    unfolding set_select_cars by blast
  then have "r_team_id (join_row c t) \<in> r_team_id ` set (select_cars w fee)" by (rule imageI)
  with \<open>car_team_id c = team_id t\<close> show "team_id t \<in> r_team_id ` set (select_cars w fee)"
    by (simp add: join_row_simps)
qed

lemma total_prize_money_split:
  "total_prize_money
     (map (\<lambda>(e, pos). \<lparr>rs_race_id = en_race_id e, rs_team_id = en_team_id e,
                      rs_car_id = en_car_id e, rs_position = pos,
                      rs_prize_money = pot * prize_split_get pos\<rparr>) zs) =
   pot * (1 / 2 * of_nat (count_position 1
            (map (\<lambda>(e, pos). \<lparr>rs_race_id = en_race_id e, rs_team_id = en_team_id e,
                      rs_car_id = en_car_id e, rs_position = pos,
                      rs_prize_money = pot * prize_split_get pos\<rparr>) zs))
        + 3 / 10 * of_nat (count_position 2
            (map (\<lambda>(e, pos). \<lparr>rs_race_id = en_race_id e, rs_team_id = en_team_id e,
                      rs_car_id = en_car_id e, rs_position = pos,
                      rs_prize_money = pot * prize_split_get pos\<rparr>) zs))
        + 1 / 5 * of_nat (count_position 3
            (map (\<lambda>(e, pos). \<lparr>rs_race_id = en_race_id e, rs_team_id = en_team_id e,
                      rs_car_id = en_car_id e, rs_position = pos,
                      rs_prize_money = pot * prize_split_get pos\<rparr>) zs)))"
  by (induction zs)
     (auto simp: total_prize_money_def count_position_def prize_split_get_cases algebra_simps)

lemma total_prize_money_make_results:
  "total_prize_money (make_results es) =
   total_pot es * (1 / 2 * of_nat (count_position 1 (make_results es))
                 + 3 / 10 * of_nat (count_position 2 (make_results es))
                 + 1 / 5 * of_nat (count_position 3 (make_results es)))"
  unfolding make_results_def by (rule total_prize_money_split)

subsection \<open>The example runs\<close>

lemma ex_run: "start_race 7 0 ex_w 1000 400 = (Some 7, ex_w')"
  by code_simp

lemma tie_run: "start_race 7 0 tie_w 1000 400 = (Some 7, tie_w')"
  by code_simp

lemma tie1_run: "start_race 8 1 tie_w 1000 950 = (Some 8, tie1_w')"
  by code_simp

lemma solo_run: "start_race 7 0 solo_w 1000 400 = (Some 7, solo_w')"
  by code_simp

lemma ex_no_cars: "select_cars ex_w 6000 = []"
  by code_simp

lemma solo_rows:
  "select_cars solo_w 400 =
     [\<lparr>r_car_id = 11, r_car_name = ''A1'', r_speed = 200, r_pit_stop_interval = 300,
       r_pit_stop_duration = 30, r_team_id = 1, r_team_name = ''A'', r_budget = 500\<rparr>]"
  by code_simp

lemma ex_rows_team_ids: "map r_team_id (select_cars ex_w 400) = [1, 2, 2]"
  by code_simp

lemma ex_keys: "team_ids_distinct ex_w" "distinct (map car_id (cars ex_w))"
  by (simp_all add: team_ids_distinct_def ex_w_def ex_teams_def ex_cars_def)

lemma ex_new_rows:
  "new_entries ex_w ex_w' = race_entries ex_w'"
  "new_results ex_w ex_w' = race_results ex_w'"
  by (simp_all add: new_entries_def new_results_def ex_w_def)

lemma tie_new_rows:
  "new_entries tie_w tie_w' = race_entries tie_w'"
  "new_results tie_w tie_w' = race_results tie_w'"
  "new_entries tie_w tie1_w' = race_entries tie1_w'"
  "new_results tie_w tie1_w' = race_results tie1_w'"
  by (simp_all add: new_entries_def new_results_def tie_w_def)

lemma solo_new_rows:
  "new_results solo_w solo_w' = race_results solo_w'"
  by (simp add: new_results_def solo_w_def)

section \<open>The claims\<close>

text \<open>
  Claim C1, as amended. With a fee that is not negative, and when each of the positions 1,
  2 and 3 is held by at most one entry, the prize money paid out in a race is at most the
  pot, the sum of the fees of its entries. (A tie at position 2 or 3 overpays like a tie at
  position 1: each tied entry gets the full share of its position.)
\<close>

theorem prizes_within_pot:
  assumes "start_race new_id now w distance fee = (Some race_id, w')"
    and "0 \<le> fee"
    and "count_position 1 (new_results w w') \<le> 1"
    and "count_position 2 (new_results w w') \<le> 1"
    and "count_position 3 (new_results w w') \<le> 1"
  shows "total_prize_money (new_results w w') \<le> total_pot (new_entries w w')"
proof -
  let ?rs = "new_results w w'" and ?es = "new_entries w w'"
  have pot: "0 \<le> total_pot ?es"
    unfolding start_race_SomeD(4) [OF assms(1)] using assms(2)
    by (simp add: total_pot_make_entries)
  have "(of_nat (count_position 1 ?rs) :: rat) \<le> 1"
    "(of_nat (count_position 2 ?rs) :: rat) \<le> 1"
    "(of_nat (count_position 3 ?rs) :: rat) \<le> 1"
    using assms(3-5) by simp_all
  then have "1 / 2 * of_nat (count_position 1 ?rs) + 3 / 10 * of_nat (count_position 2 ?rs)
               + 1 / 5 * of_nat (count_position 3 ?rs) \<le> (1 :: rat)"
    by linarith
  from mult_left_mono [OF this pot]
  have "total_pot ?es * (1 / 2 * of_nat (count_position 1 ?rs)
          + 3 / 10 * of_nat (count_position 2 ?rs)
          + 1 / 5 * of_nat (count_position 3 ?rs)) \<le> total_pot ?es"
    by simp
  moreover have "?rs = make_results ?es"
    using start_race_SomeD(4,5) [OF assms(1)] by simp
  ultimately show ?thesis
    using total_prize_money_make_results [of ?es] by simp
qed

theorem prizes_within_pot_witness:
  "start_race 7 0 ex_w 1000 400 = (Some 7, ex_w') \<and> (0 :: rat) \<le> 400 \<and>
   count_position 1 (new_results ex_w ex_w') = 1 \<and>
   count_position 2 (new_results ex_w ex_w') = 1 \<and>
   count_position 3 (new_results ex_w ex_w') = 1 \<and>
   total_pot (new_entries ex_w ex_w') = 1200 \<and>
   total_prize_money (new_results ex_w ex_w') \<le> total_pot (new_entries ex_w ex_w')"
proof -
  have c: "count_position 1 (new_results ex_w ex_w') = 1"
    "count_position 2 (new_results ex_w ex_w') = 1"
    "count_position 3 (new_results ex_w ex_w') = 1"
    unfolding ex_new_rows by (simp_all add: ex_w'_def count_position_def)
  have "total_prize_money (new_results ex_w ex_w') \<le> total_pot (new_entries ex_w ex_w')"
    by (rule prizes_within_pot [OF ex_run]) (simp_all add: c)
  moreover have "total_pot (new_entries ex_w ex_w') = 1200"
    unfolding ex_new_rows by (simp add: ex_w'_def total_pot_def)
  ultimately show ?thesis using ex_run c by simp
qed

text \<open>
  Claim C1, as stated, fails: in the race of X1, Y1 and Z1 with a fee of 400 one entry
  holds position 1, Y1 and Z1 share position 2, the pot is 1200 and 1320 is paid out.
\<close>

theorem prizes_exceed_pot_counterexample:
  "start_race 7 0 tie_w 1000 400 = (Some 7, tie_w') \<and>
   count_position 1 (new_results tie_w tie_w') = 1 \<and>
   total_pot (new_entries tie_w tie_w') = 1200 \<and>
   total_prize_money (new_results tie_w tie_w') = 1320 \<and>
   \<not> total_prize_money (new_results tie_w tie_w') \<le> total_pot (new_entries tie_w tie_w')"
  unfolding tie_new_rows using tie_run
  by (simp add: tie_w'_def count_position_def total_pot_def total_prize_money_def)

text \<open>
  Claim C2. The pot of a race is the fee times the number of its entries, one entry per
  eligible car; the entries of a team put the fee into the pot once per eligible car of
  that team, while the fee collection takes the fee from the team's budget once.
\<close>

theorem pot_counts_every_entry:
  assumes "start_race new_id now w distance fee = (Some race_id, w')"
    and "team_ids_distinct w"
    and "t \<in> set (teams w)"
  shows "total_pot (new_entries w w') = fee * of_nat (length (new_entries w w')) \<and>
         length (new_entries w w') =
           length (filter (\<lambda>c. \<exists>t\<in>set (teams w). team_id t = car_team_id c \<and> fee \<le> budget t)
                     (cars w)) \<and>
         total_pot (filter (\<lambda>e. en_team_id e = team_id t) (new_entries w w')) =
           fee * of_nat (length (filter (\<lambda>c. car_team_id c = team_id t \<and> fee \<le> budget t)
                                   (cars w))) \<and>
         teams w' = credit_prizes (new_results w w')
           (map (\<lambda>t. if fee \<le> budget t \<and> (\<exists>c\<in>set (cars w). car_team_id c = team_id t)
                     then t\<lparr>budget := budget t - fee\<rparr> else t) (teams w))"
proof -
  have eq: "deduct_fees fee (select_cars w fee) (teams w) =
        map (\<lambda>t. if fee \<le> budget t \<and> (\<exists>c\<in>set (cars w). car_team_id c = team_id t)
                  then t\<lparr>budget := budget t - fee\<rparr> else t) (teams w)"
    unfolding deduct_fees_eq
    by (rule map_cong [OF refl]) (simp add: has_row_iff [OF assms(2)])
  have "teams w' = credit_prizes (new_results w w')
           (deduct_fees fee (select_cars w fee) (teams w))"
    using start_race_SomeD(2) [OF assms(1)] start_race_SomeD(5) [OF assms(1)] by simp
  then have "teams w' = credit_prizes (new_results w w')
           (map (\<lambda>t. if fee \<le> budget t \<and> (\<exists>c\<in>set (cars w). car_team_id c = team_id t)
                     then t\<lparr>budget := budget t - fee\<rparr> else t) (teams w))"
    unfolding eq .
  then show ?thesis
    unfolding start_race_SomeD(4) [OF assms(1)]
    by (simp add: total_pot_make_entries filter_make_entries
                  length_select_cars [OF assms(2)] length_team_rows [OF assms(2,3)])
qed

theorem pot_counts_every_entry_witness:
  "start_race 7 0 ex_w 1000 400 = (Some 7, ex_w') \<and> team_ids_distinct ex_w \<and>
   \<lparr>team_id = 2, team_name = ''B'', budget = 1000\<rparr> \<in> set (teams ex_w) \<and>
   total_pot (new_entries ex_w ex_w') = 400 * 3 \<and>
   length (new_entries ex_w ex_w') = 3 \<and>
   total_pot (filter (\<lambda>e. en_team_id e = 2) (new_entries ex_w ex_w')) = 400 * 2 \<and>
   teams ex_w' = credit_prizes (new_results ex_w ex_w')
     [\<lparr>team_id = 1, team_name = ''A'', budget = 100\<rparr>,
      \<lparr>team_id = 2, team_name = ''B'', budget = 600\<rparr>,
      \<lparr>team_id = 3, team_name = ''C'', budget = 100\<rparr>,
      \<lparr>team_id = 4, team_name = ''D'', budget = 5000\<rparr>]"
proof -
  have B: "\<lparr>team_id = 2, team_name = ''B'', budget = 1000\<rparr> \<in> set (teams ex_w)"
    by (simp add: ex_w_def ex_teams_def)
  from pot_counts_every_entry [OF ex_run ex_keys(1) B] ex_run ex_keys(1) B
  show ?thesis
    by (simp add: ex_w_def ex_teams_def ex_cars_def)
qed

text \<open>
  Claim C3. The fee collection of a race takes the fee exactly once from the budget of
  every team whose id is the team id of an eligible car, however many eligible cars the
  team has, and from no other budget; the prizes are credited to the budgets it leaves.
\<close>

theorem fee_deducted_once_per_team:
  assumes "start_race new_id now w distance fee = (Some race_id, w')"
  shows "teams w' = credit_prizes (new_results w w')
                      (deduct_fees fee (select_cars w fee) (teams w)) \<and>
         deduct_fees fee (select_cars w fee) (teams w) =
           map (\<lambda>t. if team_id t \<in> r_team_id ` set (select_cars w fee)
                     then t\<lparr>budget := budget t - fee\<rparr> else t) (teams w)"
  using start_race_SomeD(2) [OF assms] start_race_SomeD(5) [OF assms]
  by (simp add: deduct_fees_eq)

theorem fee_deducted_once_per_team_witness:
  "start_race 7 0 ex_w 1000 400 = (Some 7, ex_w') \<and>
   map r_team_id (select_cars ex_w 400) = [1, 2, 2] \<and>
   deduct_fees 400 (select_cars ex_w 400) (teams ex_w) =
     [\<lparr>team_id = 1, team_name = ''A'', budget = 100\<rparr>,
      \<lparr>team_id = 2, team_name = ''B'', budget = 600\<rparr>,
      \<lparr>team_id = 3, team_name = ''C'', budget = 100\<rparr>,
      \<lparr>team_id = 4, team_name = ''D'', budget = 5000\<rparr>]"
proof -
  have ids: "r_team_id ` set (select_cars ex_w 400) = {1, 2}"
    using ex_rows_team_ids by (metis insert_absorb2 list.set(1) list.set(2) set_map)
  have ts: "teams ex_w = ex_teams"
    by (simp add: ex_w_def)
  from fee_deducted_once_per_team [OF ex_run]
  have "deduct_fees 400 (select_cars ex_w 400) (teams ex_w) =
          map (\<lambda>t. if team_id t \<in> {1, 2} then t\<lparr>budget := budget t - 400\<rparr> else t) ex_teams"
    unfolding ids ts by simp
  with ex_run ex_rows_team_ids show ?thesis
    by (simp add: ex_teams_def)
qed

text \<open>
  Claim C4. Every result of a race gets the share of its position of the pot: one half at
  position 1, three tenths at position 2, one fifth at position 3 and nothing at any other
  position. The share depends on the position of the entry alone, so entries that share
  position 1 get one half of the pot each.
\<close>

theorem prize_by_position:
  assumes "start_race new_id now w distance fee = (Some race_id, w')"
    and "r \<in> set (new_results w w')"
  shows "rs_prize_money r =
           total_pot (new_entries w w') *
             (if rs_position r = 1 then 1 / 2
              else if rs_position r = 2 then 3 / 10
              else if rs_position r = 3 then 1 / 5
              else 0)"
  using assms(2)
  unfolding start_race_SomeD(4,5) [OF assms(1)]
  by (auto simp: make_results_def prize_split_get_cases dest!: set_zip_leftD)

theorem prize_by_position_witness:
  "start_race 8 1 tie_w 1000 950 = (Some 8, tie1_w') \<and>
   new_results tie_w tie1_w' =
     [\<lparr>rs_race_id = 8, rs_team_id = 2, rs_car_id = 21, rs_position = 1, rs_prize_money = 950\<rparr>,
      \<lparr>rs_race_id = 8, rs_team_id = 3, rs_car_id = 31, rs_position = 1, rs_prize_money = 950\<rparr>] \<and>
   total_pot (new_entries tie_w tie1_w') * (1 / 2) = 950"
proof -
  have rs: "new_results tie_w tie1_w' =
     [\<lparr>rs_race_id = 8, rs_team_id = 2, rs_car_id = 21, rs_position = 1, rs_prize_money = 950\<rparr>,
      \<lparr>rs_race_id = 8, rs_team_id = 3, rs_car_id = 31, rs_position = 1, rs_prize_money = 950\<rparr>]"
    unfolding tie_new_rows by (simp add: tie1_w'_def)
  have "\<lparr>rs_race_id = 8, rs_team_id = 3, rs_car_id = 31, rs_position = 1, rs_prize_money = 950\<rparr>
          \<in> set (new_results tie_w tie1_w')"
    unfolding rs by simp
  from prize_by_position [OF tie1_run this]
  have "total_pot (new_entries tie_w tie1_w') * (1 / 2) = 950" by simp
  with tie1_run rs show ?thesis by simp
qed

text \<open>
  Claim C5. The results of a race pair with its entries, and the position of an entry is
  one more than the number of entries of the race with a strictly smaller time taken; it
  lies between 1 and the number of entries, and entries with equal times have equal
  positions.
\<close>

theorem position_is_min_rank:
  assumes "start_race new_id now w distance fee = (Some race_id, w')"
    and "i < length (new_entries w w')"
  shows "length (new_results w w') = length (new_entries w w') \<and>
         rs_car_id (new_results w w' ! i) = en_car_id (new_entries w w' ! i) \<and>
         rs_team_id (new_results w w' ! i) = en_team_id (new_entries w w' ! i) \<and>
         rs_position (new_results w w' ! i) =
           int (length (filter (\<lambda>e. en_time_taken e < en_time_taken (new_entries w w' ! i))
                          (new_entries w w'))) + 1 \<and>
         1 \<le> rs_position (new_results w w' ! i) \<and>
         rs_position (new_results w w' ! i) \<le> int (length (new_entries w w')) \<and>
         (\<forall>j < length (new_entries w w').
            en_time_taken (new_entries w w' ! j) = en_time_taken (new_entries w w' ! i) \<longrightarrow>
            rs_position (new_results w w' ! j) = rs_position (new_results w w' ! i))"
proof -
  let ?es = "new_entries w w'"
  have rs: "new_results w w' = make_results ?es"
    using start_race_SomeD(4,5) [OF assms(1)] by simp
  have "length (filter (\<lambda>e. en_time_taken e < en_time_taken (?es ! i)) ?es) < length ?es"
    using assms(2) by (intro length_filter_less [of "?es ! i"]) simp_all
  then show ?thesis
    unfolding rs using assms(2) by (simp add: make_results_nth)
qed

theorem position_is_min_rank_witness:
  "start_race 7 0 tie_w 1000 400 = (Some 7, tie_w') \<and>
   (2 :: nat) < length (new_entries tie_w tie_w') \<and>
   map en_time_taken (new_entries tie_w tie_w') = [14440, 18090, 18090] \<and>
   rs_position (new_results tie_w tie_w' ! 2) = 2 \<and>
   rs_position (new_results tie_w tie_w' ! 1) = rs_position (new_results tie_w tie_w' ! 2)"
proof -
  have es: "new_entries tie_w tie_w' =
        [\<lparr>en_race_id = 7, en_team_id = 1, en_car_id = 11, en_time_taken = 14440, en_fee = 400\<rparr>,
         \<lparr>en_race_id = 7, en_team_id = 2, en_car_id = 21, en_time_taken = 18090, en_fee = 400\<rparr>,
         \<lparr>en_race_id = 7, en_team_id = 3, en_car_id = 31, en_time_taken = 18090, en_fee = 400\<rparr>]"
    unfolding tie_new_rows by (simp add: tie_w'_def)
  have len: "2 < length (new_entries tie_w tie_w')"
    unfolding es by simp
  from position_is_min_rank [OF tie_run len]
  have "rs_position (new_results tie_w tie_w' ! 2) = 2"
    and "rs_position (new_results tie_w tie_w' ! 1) = rs_position (new_results tie_w tie_w' ! 2)"
    unfolding es by simp_all
  with tie_run len show ?thesis unfolding es by simp
qed

text \<open>
  Claim C6. For a car with a positive speed and a positive pit-stop interval, the time
  taken recorded in its entry is distance / speed * 3600 + floor (distance /
  pit_stop_interval) * pit_stop_duration. (The entry of a car is the one with its car id,
  the key of the cars. Division by zero yields an infinity or a NaN in the data frame,
  which the rationals do not have.)
\<close>

theorem time_taken_of_entry:
  assumes "start_race new_id now w distance fee = (Some race_id, w')"
    and "distinct (map car_id (cars w))"
    and "c \<in> set (cars w)" and "0 < speed c" and "0 < pit_stop_interval c"
    and "e \<in> set (new_entries w w')" and "en_car_id e = car_id c"
  shows "en_time_taken e =
           distance / speed c * 3600 +
           of_int \<lfloor>distance / pit_stop_interval c\<rfloor> * pit_stop_duration c"
proof -
  from assms(6) obtain c' t where c': "c' \<in> set (cars w)"
    and e: "e = \<lparr>en_race_id = race_id, en_team_id = r_team_id (join_row c' t),
                 en_car_id = r_car_id (join_row c' t),
                 en_time_taken = time_taken distance (join_row c' t), en_fee = fee\<rparr>"
    unfolding start_race_SomeD(4) [OF assms(1)] set_make_entries set_select_cars by auto
  from e assms(7) have "car_id c' = car_id c" by (simp add: join_row_def)
  with assms(2,3) c' have "c' = c" by (rule car_by_id)
  with e show ?thesis by (simp add: time_taken_def join_row_def)
qed

theorem time_taken_of_entry_witness:
  "start_race 7 0 ex_w 1000 400 = (Some 7, ex_w') \<and>
   distinct (map car_id (cars ex_w)) \<and>
   \<lparr>car_id = 11, car_name = ''A1'', speed = 200, pit_stop_interval = 300,
     pit_stop_duration = 30, car_team_id = 1\<rparr> \<in> set (cars ex_w) \<and>
   \<lparr>en_race_id = 7, en_team_id = 1, en_car_id = 11, en_time_taken = 18090, en_fee = 400\<rparr>
     \<in> set (new_entries ex_w ex_w') \<and>
   (18090 :: rat) = 1000 / 200 * 3600 + of_int \<lfloor>1000 / 300 :: rat\<rfloor> * 30"
proof -
  let ?c = "\<lparr>car_id = 11, car_name = ''A1'', speed = 200, pit_stop_interval = 300,
              pit_stop_duration = 30, car_team_id = 1\<rparr>"
  let ?e = "\<lparr>en_race_id = 7, en_team_id = 1, en_car_id = 11, en_time_taken = 18090,
              en_fee = 400\<rparr>"
  have c: "?c \<in> set (cars ex_w)"
    by (simp add: ex_w_def ex_cars_def)
  have e: "?e \<in> set (new_entries ex_w ex_w')"
    unfolding ex_new_rows by (simp add: ex_w'_def)
  from time_taken_of_entry [OF ex_run ex_keys(2) c _ _ e]
  have "(18090 :: rat) = 1000 / 200 * 3600 + of_int \<lfloor>1000 / 300 :: rat\<rfloor> * 30"
    by simp
  with ex_run ex_keys(2) c e show ?thesis by blast
qed

text \<open>
  Claim C7. A car has an entry in a race exactly if the budget of its team, as it is when
  the race starts, is at least the fee; and no entry of the race carries the id of a team
  whose budget is below the fee. (Team ids are keys.)
\<close>

theorem entry_iff_team_can_pay:
  assumes "start_race new_id now w distance fee = (res, w')"
    and "team_ids_distinct w"
    and "t \<in> set (teams w)"
  shows "(\<forall>c\<in>set (cars w). car_team_id c = team_id t \<longrightarrow>
            ((\<exists>e\<in>set (new_entries w w'). en_car_id e = car_id c \<and> en_team_id e = team_id t)
              \<longleftrightarrow> fee \<le> budget t)) \<and>
         (budget t < fee \<longrightarrow> (\<forall>e\<in>set (new_entries w w'). en_team_id e \<noteq> team_id t))"
proof (cases res)
  case None
  have empty: "select_cars w fee = []"
  proof (rule ccontr)
    assume "select_cars w fee \<noteq> []"
    from start_race_succeeds [OF this, of new_id now distance] assms(1) None
    show False by auto
  qed
  with assms(1) have "w' = insert_race_event new_id now distance w"
    by (simp add: start_race_None)
  then have ne: "new_entries w w' = []"
    by (simp add: new_entries_def insert_race_event_def)
  from empty have "set (select_cars w fee) = {}" by simp
  then have "\<And>c. c \<in> set (cars w) \<Longrightarrow> car_team_id c = team_id t \<Longrightarrow> \<not> fee \<le> budget t"
    using assms(3) unfolding set_select_cars by blast
  with ne show ?thesis by auto
next
  case (Some rid)
  note run = assms(1) [unfolded Some]
  have mem: "e \<in> set (new_entries w w') \<longleftrightarrow>
        (\<exists>c t'. c \<in> set (cars w) \<and> t' \<in> set (teams w) \<and> car_team_id c = team_id t' \<and>
                 fee \<le> budget t' \<and>
                 e = \<lparr>en_race_id = rid, en_team_id = car_team_id c, en_car_id = car_id c,
                      en_time_taken = time_taken distance (join_row c t'), en_fee = fee\<rparr>)" for e
  proof -
    have "e \<in> set (new_entries w w') \<longleftrightarrow>
        (\<exists>c t'. c \<in> set (cars w) \<and> t' \<in> set (teams w) \<and> car_team_id c = team_id t' \<and>
                 fee \<le> budget t' \<and>
                 e = \<lparr>en_race_id = rid, en_team_id = r_team_id (join_row c t'),
                      en_car_id = r_car_id (join_row c t'),
                      en_time_taken = time_taken distance (join_row c t'), en_fee = fee\<rparr>)"
      unfolding start_race_SomeD(4) [OF run] set_make_entries set_select_cars by blast
    then show ?thesis by (simp only: join_row_simps)
  qed
  have owner: "fee \<le> budget t"
    if "e \<in> set (new_entries w w')" "en_team_id e = team_id t" for e
  proof -
    from that(1) [unfolded mem] obtain c' t' where t': "t' \<in> set (teams w)"
      "car_team_id c' = team_id t'" "fee \<le> budget t'"
      and e: "e = \<lparr>en_race_id = rid, en_team_id = car_team_id c', en_car_id = car_id c',
                 en_time_taken = time_taken distance (join_row c' t'), en_fee = fee\<rparr>"
      by blast
    from e that(2) t'(2) have "team_id t' = team_id t" by simp
    with assms(2,3) t'(1) have "t' = t" by (rule team_by_id)
    with t'(3) show ?thesis by simp
  qed
  have A: "(\<exists>e\<in>set (new_entries w w'). en_car_id e = car_id c \<and> en_team_id e = team_id t)
              \<longleftrightarrow> fee \<le> budget t"
    if c: "c \<in> set (cars w)" "car_team_id c = team_id t" for c
  proof
    assume "\<exists>e\<in>set (new_entries w w'). en_car_id e = car_id c \<and> en_team_id e = team_id t"
    then show "fee \<le> budget t" using owner by blast
  next
    assume "fee \<le> budget t"
    with c assms(3) have
      "\<lparr>en_race_id = rid, en_team_id = car_team_id c, en_car_id = car_id c,
        en_time_taken = time_taken distance (join_row c t), en_fee = fee\<rparr> \<in> set (new_entries w w')"
      unfolding mem by blast
    with c show "\<exists>e\<in>set (new_entries w w'). en_car_id e = car_id c \<and> en_team_id e = team_id t"
      by force
  qed
  have B: "en_team_id e \<noteq> team_id t" if "budget t < fee" "e \<in> set (new_entries w w')" for e
    using owner [OF that(2)] that(1) by auto
  from A B show ?thesis by blast
qed

theorem entry_iff_team_can_pay_witness:
  "start_race 7 0 ex_w 1000 400 = (Some 7, ex_w') \<and> team_ids_distinct ex_w \<and>
   \<lparr>team_id = 3, team_name = ''C'', budget = 100\<rparr> \<in> set (teams ex_w) \<and>
   \<lparr>car_id = 31, car_name = ''C1'', speed = 300, pit_stop_interval = 600,
     pit_stop_duration = 5, car_team_id = 3\<rparr> \<in> set (cars ex_w) \<and>
   (100 :: rat) < 400 \<and>
   3 \<notin> en_team_id ` set (new_entries ex_w ex_w')"
proof -
  let ?t = "\<lparr>team_id = 3, team_name = ''C'', budget = 100\<rparr>"
  have t: "?t \<in> set (teams ex_w)"
    by (simp add: ex_w_def ex_teams_def)
  have c: "\<lparr>car_id = 31, car_name = ''C1'', speed = 300, pit_stop_interval = 600,
     pit_stop_duration = 5, car_team_id = 3\<rparr> \<in> set (cars ex_w)"
    by (simp add: ex_w_def ex_cars_def)
  from entry_iff_team_can_pay [OF ex_run ex_keys(1) t]
  have "3 \<notin> en_team_id ` set (new_entries ex_w ex_w')"
    by auto
  with ex_run ex_keys(1) t c show ?thesis by simp
qed

text \<open>
  Claim C8 says that when no car is eligible the race fails, the caller gets no race id
  and nothing the attempt wrote persists, the race event of step 1 included. The first
  two parts hold and no budget, entry or result changes, but the race event stays: the
  session autocommits, so the \<^verbatim>\<open>INSERT\<close> of step 1 is committed before the
  exception is raised and \<^verbatim>\<open>conn.rollback()\<close> has nothing to undo. Here with a fee
  of 6000, which no team with a car can pay.
\<close>

theorem race_event_outlives_rollback:
  "select_cars ex_w 6000 = [] \<and>
   start_race 8 1 ex_w 1000 6000 =
     (None, ex_w\<lparr>race_events := [\<lparr>ev_race_id = 8, ev_distance = 1000, ev_started_at = 1\<rparr>]\<rparr>) \<and>
   race_events ex_w = [] \<and>
   snd (start_race 8 1 ex_w 1000 6000) \<noteq> ex_w \<and>
   teams (snd (start_race 8 1 ex_w 1000 6000)) = teams ex_w"
proof -
  have run: "start_race 8 1 ex_w 1000 6000 =
     (None, ex_w\<lparr>race_events := [\<lparr>ev_race_id = 8, ev_distance = 1000, ev_started_at = 1\<rparr>]\<rparr>)"
    unfolding start_race_None [OF ex_no_cars]
    by (simp add: insert_race_event_def ex_w_def)
  have "race_events (ex_w\<lparr>race_events :=
          [\<lparr>ev_race_id = 8, ev_distance = 1000, ev_started_at = 1\<rparr>]\<rparr>) \<noteq> race_events ex_w"
    by (simp add: ex_w_def)
  then have "ex_w\<lparr>race_events := [\<lparr>ev_race_id = 8, ev_distance = 1000, ev_started_at = 1\<rparr>]\<rparr>
          \<noteq> ex_w"
    by metis
  with run ex_no_cars show ?thesis by (simp add: ex_w_def)
qed

text \<open>
  Claim C9. A successful race leaves the row of a team unchanged when the team's budget is
  below the fee or the team has no car: neither loop over the budgets touches it. (Team
  ids are keys.)
\<close>

theorem team_without_eligible_car_unchanged:
  assumes "start_race new_id now w distance fee = (Some race_id, w')"
    and "team_ids_distinct w"
    and "i < length (teams w)"
    and "budget (teams w ! i) < fee \<or>
         (\<forall>c\<in>set (cars w). car_team_id c \<noteq> team_id (teams w ! i))"
  shows "length (teams w') = length (teams w) \<and> teams w' ! i = teams w ! i"
proof -
  from assms(3) have "teams w ! i \<in> set (teams w)" by simp
  from no_row_of_team [OF assms(2) this assms(4)]
  have no: "team_id (teams w ! i) \<notin> r_team_id ` set (select_cars w fee)" .
  have "credited (new_results w w') (team_id (teams w ! i)) = 0"
    unfolding start_race_SomeD(5) [OF assms(1)] using no by (rule credited_none)
  with no assms(3) show ?thesis
    unfolding teams_after_run [OF assms(1)] by simp
qed

theorem team_without_eligible_car_unchanged_witness:
  "start_race 7 0 ex_w 1000 400 = (Some 7, ex_w') \<and> team_ids_distinct ex_w \<and>
   (2 :: nat) < length (teams ex_w) \<and>
   budget (teams ex_w ! 2) < 400 \<and>
   length (teams ex_w') = length (teams ex_w) \<and>
   teams ex_w' ! 2 = teams ex_w ! 2 \<and>
   teams ex_w ! 2 = \<lparr>team_id = 3, team_name = ''C'', budget = 100\<rparr>"
proof -
  have ts: "teams ex_w = ex_teams"
    by (simp add: ex_w_def)
  have len: "2 < length (teams ex_w)"
    and low: "budget (teams ex_w ! 2) < 400"
    and row: "teams ex_w ! 2 = \<lparr>team_id = 3, team_name = ''C'', budget = 100\<rparr>"
    unfolding ts by (simp_all add: ex_teams_def)
  from team_without_eligible_car_unchanged [OF ex_run ex_keys(1) len disjI1 [OF low]]
    ex_run ex_keys(1) len low row
  show ?thesis by blast
qed

text \<open>
  Claim C10. A race with exactly one eligible car and a positive fee succeeds; its only
  result has position 1 and a prize of half the fee, and the budget of the car's team ends
  half a fee lower than it was, every other budget as it was: the other half of the fee
  collected is credited to nobody.
\<close>

theorem single_car_race:
  assumes "select_cars w fee = [r]" and "0 < fee"
  shows "\<exists>race_id w'.
           start_race new_id now w distance fee = (Some race_id, w') \<and>
           new_results w w' =
             [\<lparr>rs_race_id = race_id, rs_team_id = r_team_id r, rs_car_id = r_car_id r,
               rs_position = 1, rs_prize_money = fee / 2\<rparr>] \<and>
           teams w' = map (\<lambda>t. if team_id t = r_team_id r then t\<lparr>budget := budget t - fee / 2\<rparr>
                                else t) (teams w)"
proof -
  from assms(1) have "select_cars w fee \<noteq> []" by simp
  from start_race_succeeds [OF this, of new_id now distance]
  obtain rid w' where run: "start_race new_id now w distance fee = (Some rid, w')" by blast
  have res: "new_results w w' =
      [\<lparr>rs_race_id = rid, rs_team_id = r_team_id r, rs_car_id = r_car_id r,
        rs_position = 1, rs_prize_money = fee / 2\<rparr>]"
    unfolding start_race_SomeD(5) [OF run] assms(1)
    by (simp add: make_results_def make_entries_def total_pot_def prize_split_get_cases)
  have "teams w' = map (\<lambda>t. if team_id t = r_team_id r then t\<lparr>budget := budget t - fee / 2\<rparr>
                                else t) (teams w)"
    unfolding teams_after_run [OF run] res assms(1) using assms(2)
    by (auto simp: credited_def)
  with run res show ?thesis by blast
qed

theorem single_car_race_witness:
  "select_cars solo_w 400 =
     [\<lparr>r_car_id = 11, r_car_name = ''A1'', r_speed = 200, r_pit_stop_interval = 300,
       r_pit_stop_duration = 30, r_team_id = 1, r_team_name = ''A'', r_budget = 500\<rparr>] \<and>
   (0 :: rat) < 400 \<and>
   start_race 7 0 solo_w 1000 400 = (Some 7, solo_w') \<and>
   new_results solo_w solo_w' =
     [\<lparr>rs_race_id = 7, rs_team_id = 1, rs_car_id = 11, rs_position = 1, rs_prize_money = 200\<rparr>] \<and>
   teams solo_w' =
     [\<lparr>team_id = 1, team_name = ''A'', budget = 300\<rparr>,
      \<lparr>team_id = 3, team_name = ''C'', budget = 100\<rparr>]"
proof -
  have pos: "(0 :: rat) < 400" by simp
  from single_car_race [OF solo_rows pos, of 7 0 1000] solo_run
  have "new_results solo_w solo_w' =
     [\<lparr>rs_race_id = 7, rs_team_id = 1, rs_car_id = 11, rs_position = 1, rs_prize_money = 200\<rparr>]"
    and "teams solo_w' =
     map (\<lambda>t. if team_id t = 1 then t\<lparr>budget := budget t - 400 / 2\<rparr> else t) (teams solo_w)"
    by auto
  with solo_rows solo_run show ?thesis
    by (simp add: solo_w_def)
qed

end
